theory Spec2Isabelle
  imports Main
begin

section \<open>Data model\<close>

text \<open>
  The script \<^verbatim>\<open>write_upsert_aws_in_pyspark.py\<close> has one function,
  \<^verbatim>\<open>update_and_load_to_aurora\<close>, written against the PySpark DataFrame API.
  A cell of a DataFrame is a value or SQL NULL (\<open>None\<close>); a row is the list of its
  cells in the order of the schema; a DataFrame is its column names and its rows.
  Column types are not modelled: the two inputs are taken to hold values of the same
  type in columns of the same name. The model is of the body of the function: the
  parameter \<^verbatim>\<open>spark\<close> is not used there and is left out, and the annotation
  \<^verbatim>\<open>DataFrame\<close> of two parameters, a name the script does not import, is taken as
  resolved.
\<close>

datatype val = IntV int | StrV string

type_synonym cell = "val option"

type_synonym row = "cell list"

record DataFrame =
  columns :: "string list"
  rows :: "row list"

text \<open>
  The exceptions that can leave the function: Python's IndexError (of \<^verbatim>\<open>on[0]\<close> inside
  \<^verbatim>\<open>DataFrame.join\<close> and of \<^verbatim>\<open>primary_keys[0]\<close>, on an empty list), Spark's
  AnalysisException (a column name that cannot be resolved, or a union of two DataFrames
  that do not have the same columns), Python's KeyError (of \<^verbatim>\<open>aurora_properties[...]\<close>),
  and whatever the JDBC writer raises. None is caught.
\<close>

datatype error = IndexError | AnalysisException | KeyError string | WriteError string

definition bindE :: "error + 'a \<Rightarrow> ('a \<Rightarrow> error + 'b) \<Rightarrow> error + 'b" where
  "bindE m f = (case m of Inl e \<Rightarrow> Inl e | Inr x \<Rightarrow> f x)"

text \<open>The cell of row \<open>r\<close> under column \<open>c\<close>, for a row laid out along \<open>cols\<close>.\<close>

definition cell_of :: "string list \<Rightarrow> row \<Rightarrow> string \<Rightarrow> cell" where
  "cell_of cols r c = (case map_of (zip cols r) c of Some v \<Rightarrow> v | None \<Rightarrow> None)"

section \<open>Column expressions: SQL's three-valued logic\<close>

text \<open>
  A Spark boolean column evaluates on a row to true, false or NULL (\<open>None\<close>).
  \<^verbatim>\<open>isNull\<close> and \<^verbatim>\<open>isNotNull\<close> never return NULL; \<^verbatim>\<open>!=\<close> returns NULL as soon as
  one operand is NULL; \<^verbatim>\<open>&\<close>, \<^verbatim>\<open>|\<close> and \<^verbatim>\<open>~\<close> are Kleene's connectives.
  \<^verbatim>\<open>filter\<close> keeps the rows on which its condition is true.
\<close>

definition isNull :: "cell \<Rightarrow> bool option" where
  "isNull c = Some (c = None)"

definition isNotNull :: "cell \<Rightarrow> bool option" where
  "isNotNull c = Some (c \<noteq> None)"

fun neq3 :: "cell \<Rightarrow> cell \<Rightarrow> bool option" where
  "neq3 (Some a) (Some b) = Some (a \<noteq> b)"
| "neq3 _ _ = None"

fun and3 :: "bool option \<Rightarrow> bool option \<Rightarrow> bool option" where
  "and3 (Some False) _ = Some False"
| "and3 _ (Some False) = Some False"
| "and3 (Some True) (Some True) = Some True"
| "and3 _ _ = None"

fun or3 :: "bool option \<Rightarrow> bool option \<Rightarrow> bool option" where
  "or3 (Some True) _ = Some True"
| "or3 _ (Some True) = Some True"
| "or3 (Some False) (Some False) = Some False"
| "or3 _ _ = None"

fun not3 :: "bool option \<Rightarrow> bool option" where
  "not3 (Some b) = Some (\<not> b)"
| "not3 None = None"

section \<open>The DataFrame operations the function calls\<close>

text \<open>
  \<^verbatim>\<open>new_data.alias("nd").join(current_data.alias("cd"), on=primary_keys, how="fullouter")\<close>.
  The joined DataFrame keeps, for each joined row, the cells of the \<open>nd\<close> side and the
  cells of the \<open>cd\<close> side (the key columns of both sides stay reachable under their
  qualified names \<^verbatim>\<open>nd.k\<close> and \<^verbatim>\<open>cd.k\<close>); the side that has no partner is all NULL.
  Two rows are partners when every key column is non-NULL and equal on both.
\<close>

record Joined =
  nd_columns :: "string list"
  cd_columns :: "string list"
  using_keys :: "string list"
  pairs :: "(row \<times> row) list"

definition nulls :: "string list \<Rightarrow> row" where
  "nulls cols = replicate (length cols) None"

definition keys_match :: "string list \<Rightarrow> string list \<Rightarrow> string list \<Rightarrow> row \<Rightarrow> row \<Rightarrow> bool" where
  "keys_match pks lcols rcols l r =
     list_all (\<lambda>pk. cell_of lcols l pk \<noteq> None \<and> cell_of lcols l pk = cell_of rcols r pk) pks"

definition expand :: "string list \<Rightarrow> DataFrame \<Rightarrow> DataFrame \<Rightarrow> row \<Rightarrow> (row \<times> row) list" where
  "expand pks left right l =
     (let ms = filter (keys_match pks (columns left) (columns right) l) (rows right)
      in if ms = [] then [(l, nulls (columns right))] else map (Pair l) ms)"

definition unmatched :: "string list \<Rightarrow> DataFrame \<Rightarrow> DataFrame \<Rightarrow> row \<Rightarrow> bool" where
  "unmatched pks left right r =
     (\<not> list_ex (\<lambda>l. keys_match pks (columns left) (columns right) l r) (rows left))"

definition outer_pairs :: "string list \<Rightarrow> DataFrame \<Rightarrow> DataFrame \<Rightarrow> (row \<times> row) list" where
  "outer_pairs pks left right =
     concat (map (expand pks left right) (rows left)) @
     map (Pair (nulls (columns left))) (filter (unmatched pks left right) (rows right))"

definition join_fullouter :: "DataFrame \<Rightarrow> DataFrame \<Rightarrow> string list \<Rightarrow> error + Joined" where
  "join_fullouter left right on =
     (if on = [] then Inl IndexError
      else if \<not> (set on \<subseteq> set (columns left) \<and> set on \<subseteq> set (columns right))
      then Inl AnalysisException
      else Inr \<lparr>nd_columns = columns left, cd_columns = columns right, using_keys = on,
                pairs = outer_pairs on left right\<rparr>)"

text \<open>\<^verbatim>\<open>col("nd.c")\<close> and \<^verbatim>\<open>col("cd.c")\<close> on a joined row.\<close>

definition nd_col :: "Joined \<Rightarrow> row \<times> row \<Rightarrow> string \<Rightarrow> cell" where
  "nd_col j p c = cell_of (nd_columns j) (fst p) c"

definition cd_col :: "Joined \<Rightarrow> row \<times> row \<Rightarrow> string \<Rightarrow> cell" where
  "cd_col j p c = cell_of (cd_columns j) (snd p) c"

definition filter_df :: "(row \<times> row \<Rightarrow> bool option) \<Rightarrow> Joined \<Rightarrow> Joined" where
  "filter_df cond j = j\<lparr>pairs := filter (\<lambda>p. cond p = Some True) (pairs j)\<rparr>"

text \<open>
  \<^verbatim>\<open>select\<close> of a list of \<^verbatim>\<open>nd.\<close> columns (of \<^verbatim>\<open>cd.\<close> columns): every name must be a
  column of that side. \<^verbatim>\<open>select("nd.*")\<close> is the \<open>nd\<close> side's key columns followed by its
  other columns.
\<close>

definition select_nd :: "string list \<Rightarrow> Joined \<Rightarrow> error + DataFrame" where
  "select_nd cs j =
     (if set cs \<subseteq> set (nd_columns j)
      then Inr \<lparr>columns = cs, rows = map (\<lambda>p. map (nd_col j p) cs) (pairs j)\<rparr>
      else Inl AnalysisException)"

definition select_cd :: "string list \<Rightarrow> Joined \<Rightarrow> error + DataFrame" where
  "select_cd cs j =
     (if set cs \<subseteq> set (cd_columns j)
      then Inr \<lparr>columns = cs, rows = map (\<lambda>p. map (cd_col j p) cs) (pairs j)\<rparr>
      else Inl AnalysisException)"

definition nd_star :: "Joined \<Rightarrow> string list" where
  "nd_star j = using_keys j @ filter (\<lambda>c. c \<notin> set (using_keys j)) (nd_columns j)"

definition cd_star :: "Joined \<Rightarrow> string list" where
  "cd_star j = using_keys j @ filter (\<lambda>c. c \<notin> set (using_keys j)) (cd_columns j)"

text \<open>
  \<^verbatim>\<open>a.unionByName(b)\<close>: neither side may repeat a column name, every column of \<open>a\<close> must
  be a column of \<open>b\<close>, and \<open>b\<close> may have no further column. The rows of \<open>b\<close> are laid out
  along the columns of \<open>a\<close> and appended; nothing is deduplicated.
\<close>

definition unionByName :: "DataFrame \<Rightarrow> DataFrame \<Rightarrow> error + DataFrame" where
  "unionByName a b =
     (if distinct (columns a) \<and> distinct (columns b) \<and> set (columns a) = set (columns b)
      then Inr \<lparr>columns = columns a,
                rows = rows a @ map (\<lambda>r. map (cell_of (columns b) r) (columns a)) (rows b)\<rparr>
      else Inl AnalysisException)"

section \<open>The function\<close>

text \<open>
  The condition shared by lines 48-49 and 63-64:
  \<^verbatim>\<open>(col("nd.value_col") != col("cd.value_col")) | (col("nd.another_col") != col("cd.another_col"))\<close>.
\<close>

definition changed :: "Joined \<Rightarrow> row \<times> row \<Rightarrow> bool option" where
  "changed j p =
     or3 (neq3 (nd_col j p ''value_col'') (cd_col j p ''value_col''))
         (neq3 (nd_col j p ''another_col'') (cd_col j p ''another_col''))"

text \<open>The four compared columns must resolve, or building the condition fails.\<close>

definition changed_resolves :: "Joined \<Rightarrow> bool" where
  "changed_resolves j =
     (''value_col'' \<in> set (nd_columns j) \<and> ''value_col'' \<in> set (cd_columns j) \<and>
      ''another_col'' \<in> set (nd_columns j) \<and> ''another_col'' \<in> set (cd_columns j))"

text \<open>The three filter conditions (lines 45-50, 54 and 59-65), on the key column \<^verbatim>\<open>primary_keys[0]\<close>.\<close>

definition cond_updated :: "Joined \<Rightarrow> string \<Rightarrow> row \<times> row \<Rightarrow> bool option" where
  "cond_updated j pk0 p =
     and3 (and3 (isNotNull (nd_col j p pk0)) (isNotNull (cd_col j p pk0))) (changed j p)"

definition cond_new :: "Joined \<Rightarrow> string \<Rightarrow> row \<times> row \<Rightarrow> bool option" where
  "cond_new j pk0 p = isNull (cd_col j p pk0)"

definition cond_unchanged :: "Joined \<Rightarrow> string \<Rightarrow> row \<times> row \<Rightarrow> bool option" where
  "cond_unchanged j pk0 p =
     and3 (and3 (isNotNull (nd_col j p pk0)) (isNotNull (cd_col j p pk0))) (not3 (changed j p))"

text \<open>Lines 44-51.\<close>

definition updated_rows :: "string list \<Rightarrow> string list \<Rightarrow> Joined \<Rightarrow> error + DataFrame" where
  "updated_rows primary_keys new_columns joined_df =
     (case primary_keys of
        [] \<Rightarrow> Inl IndexError
      | pk0 # _ \<Rightarrow>
          if pk0 \<in> set (nd_columns joined_df) \<and> pk0 \<in> set (cd_columns joined_df) \<and>
             changed_resolves joined_df
          then select_nd (primary_keys @ filter (\<lambda>c. c \<notin> set primary_keys) new_columns)
                 (filter_df (cond_updated joined_df pk0) joined_df)
          else Inl AnalysisException)"

text \<open>Line 54.\<close>

definition new_rows :: "string list \<Rightarrow> Joined \<Rightarrow> error + DataFrame" where
  "new_rows primary_keys joined_df =
     (case primary_keys of
        [] \<Rightarrow> Inl IndexError
      | pk0 # _ \<Rightarrow>
          if pk0 \<in> set (cd_columns joined_df)
          then select_nd (nd_star joined_df) (filter_df (cond_new joined_df pk0) joined_df)
          else Inl AnalysisException)"

text \<open>Lines 58-66.\<close>

definition unchanged_rows :: "string list \<Rightarrow> Joined \<Rightarrow> error + DataFrame" where
  "unchanged_rows primary_keys joined_df =
     (case primary_keys of
        [] \<Rightarrow> Inl IndexError
      | pk0 # _ \<Rightarrow>
          if pk0 \<in> set (nd_columns joined_df) \<and> pk0 \<in> set (cd_columns joined_df) \<and>
             changed_resolves joined_df
          then select_cd (cd_star joined_df) (filter_df (cond_unchanged joined_df pk0) joined_df)
          else Inl AnalysisException)"

text \<open>Lines 34-69: the reconciled DataFrame \<^verbatim>\<open>final_df\<close>, before the write.\<close>

definition reconcile :: "DataFrame \<Rightarrow> DataFrame \<Rightarrow> string list \<Rightarrow> error + DataFrame" where
  "reconcile current_data new_data primary_keys =
     bindE (join_fullouter new_data current_data primary_keys) (\<lambda>joined_df.
     bindE (updated_rows primary_keys (columns new_data) joined_df) (\<lambda>updated.
     bindE (new_rows primary_keys joined_df) (\<lambda>inserted.
     bindE (unchanged_rows primary_keys joined_df) (\<lambda>unchanged.
     bindE (unionByName inserted updated) (\<lambda>u.
     unionByName u unchanged)))))"

text \<open>
  Lines 72-82. The JDBC writer is outside the script: it is the parameter \<open>save\<close>, which
  takes the request and the destination and returns the outcome and the destination
  after it. The world is the destination and what has been printed.
\<close>

record JdbcWrite =
  url :: string
  dbtable :: string
  user :: string
  password :: string
  driver :: string
  mode :: string
  payload :: DataFrame

record 'db world =
  destination :: 'db
  stdout :: "string list"

definition update_and_load_to_aurora ::
  "(JdbcWrite \<Rightarrow> 'db \<Rightarrow> (error + unit) \<times> 'db) \<Rightarrow> DataFrame \<Rightarrow> DataFrame \<Rightarrow> string list \<Rightarrow>
   string \<Rightarrow> string \<Rightarrow> (string \<times> string) list \<Rightarrow> 'db world \<Rightarrow> (error + unit) \<times> 'db world" where
  "update_and_load_to_aurora save current_data new_data primary_keys
       aurora_jdbc_url aurora_table_name aurora_properties w =
     (case reconcile current_data new_data primary_keys of
        Inl e \<Rightarrow> (Inl e, w)
      | Inr final_df \<Rightarrow>
          (case map_of aurora_properties ''user'' of
             None \<Rightarrow> (Inl (KeyError ''user''), w)
           | Some u \<Rightarrow>
          (case map_of aurora_properties ''password'' of
             None \<Rightarrow> (Inl (KeyError ''password''), w)
           | Some pw \<Rightarrow>
          (case map_of aurora_properties ''driver'' of
             None \<Rightarrow> (Inl (KeyError ''driver''), w)
           | Some d \<Rightarrow>
          (case save \<lparr>url = aurora_jdbc_url, dbtable = aurora_table_name, user = u,
                      password = pw, driver = d, mode = ''overwrite'', payload = final_df\<rparr>
                     (destination w) of
             (Inl e, db') \<Rightarrow> (Inl e, w\<lparr>destination := db'\<rparr>)
           | (Inr _, db') \<Rightarrow>
               (Inr (), \<lparr>destination = db',
                         stdout = stdout w @
                           [''Data successfully updated and loaded to Aurora table: '' @
                            aurora_table_name]\<rparr>))))))"

section \<open>Vocabulary of the properties\<close>

text \<open>
  The error taxonomy of the specification names the failures by their cause: an empty
  primary key (the IndexError), a column missing from a dataset (the AnalysisException),
  a write that the destination rejects.

  The key of a row is the list of its cells under the primary-key columns. A key is
  present in a dataset when some row has it; a dataset has unique keys when no two of
  its rows have the same key. A dataset is \<open>clean\<close> when no row has NULL in a key
  column or in one of the two compared columns.
\<close>

datatype category = AmbiguousPrimaryKey | SchemaMismatch | ConnectionError | Unclassified

fun taxonomy :: "error \<Rightarrow> category" where
  "taxonomy IndexError = AmbiguousPrimaryKey"
| "taxonomy AnalysisException = SchemaMismatch"
| "taxonomy (WriteError _) = ConnectionError"
| "taxonomy (KeyError _) = Unclassified"

definition key_of :: "string list \<Rightarrow> DataFrame \<Rightarrow> row \<Rightarrow> cell list" where
  "key_of pks df r = map (cell_of (columns df) r) pks"

definition has_key :: "string list \<Rightarrow> DataFrame \<Rightarrow> cell list \<Rightarrow> bool" where
  "has_key pks df k = (k \<in> set (map (key_of pks df) (rows df)))"

definition rows_for :: "string list \<Rightarrow> DataFrame \<Rightarrow> cell list \<Rightarrow> row list" where
  "rows_for pks df k = filter (\<lambda>r. key_of pks df r = k) (rows df)"

definition unique_keys :: "string list \<Rightarrow> DataFrame \<Rightarrow> bool" where
  "unique_keys pks df = distinct (map (key_of pks df) (rows df))"

definition clean :: "string list \<Rightarrow> DataFrame \<Rightarrow> bool" where
  "clean pks df =
     list_all (\<lambda>r. None \<notin> set (key_of pks df r) \<and>
                    cell_of (columns df) r ''value_col'' \<noteq> None \<and>
                    cell_of (columns df) r ''another_col'' \<noteq> None) (rows df)"

section \<open>Auxiliary notions\<close>

text \<open>
  The joined DataFrame of a successful join, the columns of \<^verbatim>\<open>nd.*\<close>, a row laid out
  along other columns, and the joined rows that pass a filter condition.
\<close>

definition the_join :: "string list \<Rightarrow> DataFrame \<Rightarrow> DataFrame \<Rightarrow> Joined" where
  "the_join pks N C = \<lparr>nd_columns = columns N, cd_columns = columns C, using_keys = pks,
                        pairs = outer_pairs pks N C\<rparr>"

definition out_columns :: "string list \<Rightarrow> DataFrame \<Rightarrow> string list" where
  "out_columns pks N = pks @ filter (\<lambda>c. c \<notin> set pks) (columns N)"

definition project :: "string list \<Rightarrow> string list \<Rightarrow> row \<Rightarrow> row" where
  "project cols out r = map (cell_of cols r) out"

definition bucket :: "(row \<times> row \<Rightarrow> bool option) \<Rightarrow> (row \<times> row) list \<Rightarrow> (row \<times> row) list" where
  "bucket cond ps = filter (\<lambda>p. cond p = Some True) ps"

text \<open>The number of buckets that take a joined row.\<close>

definition hits :: "Joined \<Rightarrow> string \<Rightarrow> row \<times> row \<Rightarrow> nat" where
  "hits J pk0 p =
     (if cond_new J pk0 p = Some True then 1 else 0) +
     (if cond_updated J pk0 p = Some True then 1 else 0) +
     (if cond_unchanged J pk0 p = Some True then 1 else 0)"

section \<open>Example datasets\<close>

text \<open>
  The two datasets of the specification's example have the columns \<^verbatim>\<open>id\<close> and
  \<^verbatim>\<open>value_col\<close> only. The other examples have the three columns the function reads.
\<close>

definition spec_current :: DataFrame where
  "spec_current = \<lparr>columns = [''id'', ''value_col''],
                    rows = [[Some (IntV 1), Some (StrV ''a'')], [Some (IntV 2), Some (StrV ''b'')]]\<rparr>"

definition spec_new :: DataFrame where
  "spec_new = \<lparr>columns = [''id'', ''value_col''],
                rows = [[Some (IntV 2), Some (StrV ''B'')], [Some (IntV 3), Some (StrV ''c'')]]\<rparr>"

definition three_col :: "(int \<times> string option \<times> string option) list \<Rightarrow> DataFrame" where
  "three_col xs = \<lparr>columns = [''id'', ''value_col'', ''another_col''],
                    rows = map (\<lambda>(i, v, a). [Some (IntV i), map_option StrV v, map_option StrV a]) xs\<rparr>"

definition ex_current :: DataFrame where
  "ex_current = three_col [(1, Some ''a'', Some ''x''), (2, Some ''b'', Some ''x'')]"

definition ex_new :: DataFrame where
  "ex_new = three_col [(2, Some ''B'', Some ''x''), (3, Some ''c'', Some ''x'')]"

definition ex_reconciled :: DataFrame where
  "ex_reconciled = three_col [(3, Some ''c'', Some ''x''), (2, Some ''B'', Some ''x'')]"

definition same_current :: DataFrame where
  "same_current = three_col [(1, Some ''a'', Some ''x''), (2, Some ''b'', Some ''y'')]"

definition same_new :: DataFrame where
  "same_new = three_col [(2, Some ''b'', Some ''y''), (3, Some ''c'', Some ''z'')]"

definition same_reconciled :: DataFrame where
  "same_reconciled = three_col [(3, Some ''c'', Some ''z''), (2, Some ''b'', Some ''y'')]"

definition null_current :: DataFrame where
  "null_current = three_col [(1, Some ''a'', None), (2, Some ''b'', Some ''y'')]"

definition null_new :: DataFrame where
  "null_new = three_col [(1, Some ''a'', None), (2, Some ''b'', Some ''y''), (3, Some ''c'', Some ''z'')]"

definition null_pair :: DataFrame where
  "null_pair = three_col [(1, None, Some ''x'')]"

definition null_pair_other :: DataFrame where
  "null_pair_other = three_col [(1, None, Some ''y'')]"

definition half_null_current :: DataFrame where
  "half_null_current = three_col [(1, Some ''a'', Some ''x'')]"

definition half_null_new :: DataFrame where
  "half_null_new = three_col [(1, None, Some ''x'')]"


section \<open>Three-valued logic and cells\<close>

lemma and3_True_iff: "and3 a b = Some True \<longleftrightarrow> a = Some True \<and> b = Some True"
  by (cases "(a, b)" rule: and3.cases) auto

lemma or3_False_iff: "or3 a b = Some False \<longleftrightarrow> a = Some False \<and> b = Some False"
  by (cases "(a, b)" rule: or3.cases) auto

lemma or3_True_iff: "or3 a b = Some True \<longleftrightarrow> a = Some True \<or> b = Some True"
  by (cases "(a, b)" rule: or3.cases) auto

lemma not3_True_iff: "not3 a = Some True \<longleftrightarrow> a = Some False"
  by (cases a rule: not3.cases) auto

lemma neq3_True_iff: "neq3 a b = Some True \<longleftrightarrow> a \<noteq> None \<and> b \<noteq> None \<and> a \<noteq> b"
  by (cases "(a, b)" rule: neq3.cases) auto

lemma neq3_False_iff: "neq3 a b = Some False \<longleftrightarrow> a \<noteq> None \<and> a = b"
  by (cases "(a, b)" rule: neq3.cases) auto

lemma cell_of_map: "c \<in> set cs \<Longrightarrow> cell_of cs (map f cs) c = f c"
  by (simp add: cell_of_def map_of_zip_map)

lemma cell_of_nulls: "cell_of cols (nulls cols') c = None"
proof (cases "map_of (zip cols (nulls cols')) c")
  case None
  then show ?thesis by (simp add: cell_of_def)
next
  case (Some v)
  then have "(c, v) \<in> set (zip cols (nulls cols'))" by (rule map_of_SomeD)
  then have "v \<in> set (nulls cols')" by (rule set_zip_rightD)
  then have "v = None" by (simp add: nulls_def)
  with Some show ?thesis by (simp add: cell_of_def)
qed

lemma keys_match_iff:
  "keys_match pks (columns N) (columns C) l r \<longleftrightarrow>
     None \<notin> set (key_of pks N l) \<and> key_of pks N l = key_of pks C r"
proof -
  have "keys_match pks (columns N) (columns C) l r \<longleftrightarrow>
          (\<forall>pk\<in>set pks. cell_of (columns N) l pk \<noteq> None) \<and>
          (\<forall>pk\<in>set pks. cell_of (columns N) l pk = cell_of (columns C) r pk)"
    by (auto simp: keys_match_def list_all_iff)
  moreover have "(\<forall>pk\<in>set pks. cell_of (columns N) l pk \<noteq> None) \<longleftrightarrow>
                   None \<notin> set (key_of pks N l)"
    by (force simp: key_of_def)
  moreover have "(\<forall>pk\<in>set pks. cell_of (columns N) l pk = cell_of (columns C) r pk) \<longleftrightarrow>
                   key_of pks N l = key_of pks C r"
    by (simp add: key_of_def)
  ultimately show ?thesis by simp
qed

lemma filter_unique:
  "distinct (map f xs) \<Longrightarrow> x \<in> set xs \<Longrightarrow> filter (\<lambda>y. f y = f x) xs = [x]"
proof (induction xs)
  case Nil then show ?case by simp
next
  case (Cons a xs)
  show ?case
  proof (cases "a = x")
    case True
    with Cons.prems have "f x \<notin> f ` set xs" by simp
    then have "\<forall>y\<in>set xs. f y \<noteq> f x" by (metis imageI)
    then have "filter (\<lambda>y. f y = f x) xs = []" by (simp add: filter_empty_conv)
    with True show ?thesis by simp
  next
    case False
    with Cons.prems have "x \<in> set xs" "f a \<noteq> f x" by auto
    with Cons show ?thesis by simp
  qed
qed

lemma rows_for_unique:
  "unique_keys pks df \<Longrightarrow> l \<in> set (rows df) \<Longrightarrow> key_of pks df l = k \<Longrightarrow> rows_for pks df k = [l]"
  unfolding unique_keys_def rows_for_def using filter_unique [of "key_of pks df" "rows df" l] by auto

lemma concat_map_if:
  "concat (map (\<lambda>x. if P x then f x else []) xs) = concat (map f (filter P xs))"
  by (induction xs) auto

section \<open>The shape of a successful run\<close>

lemma set_out_columns: "set pks \<subseteq> set (columns N) \<Longrightarrow> set (out_columns pks N) = set (columns N)"
  by (auto simp: out_columns_def)

lemma join_Inr:
  "join_fullouter N C pks = Inr J \<Longrightarrow>
     pks \<noteq> [] \<and> set pks \<subseteq> set (columns N) \<and> set pks \<subseteq> set (columns C) \<and> J = the_join pks N C"
  by (auto simp: join_fullouter_def the_join_def split: if_splits)

lemma new_rows_Inr:
  assumes "new_rows (pk0 # ks) (the_join (pk0 # ks) N C) = Inr D"
  shows "D = \<lparr>columns = out_columns (pk0 # ks) N,
              rows = map (\<lambda>p. project (columns N) (out_columns (pk0 # ks) N) (fst p))
                       (bucket (cond_new (the_join (pk0 # ks) N C) pk0) (outer_pairs (pk0 # ks) N C))\<rparr>"
  using assms
  by (auto simp: new_rows_def select_nd_def filter_df_def the_join_def nd_star_def out_columns_def
      project_def bucket_def nd_col_def split: if_splits)

lemma updated_rows_Inr:
  assumes "updated_rows (pk0 # ks) (columns N) (the_join (pk0 # ks) N C) = Inr D"
  shows "D = \<lparr>columns = out_columns (pk0 # ks) N,
              rows = map (\<lambda>p. project (columns N) (out_columns (pk0 # ks) N) (fst p))
                       (bucket (cond_updated (the_join (pk0 # ks) N C) pk0) (outer_pairs (pk0 # ks) N C))\<rparr>"
    and "changed_resolves (the_join (pk0 # ks) N C)"
  using assms
  by (auto simp: updated_rows_def select_nd_def filter_df_def the_join_def out_columns_def
      project_def bucket_def nd_col_def split: if_splits)

lemma unchanged_rows_Inr:
  assumes "unchanged_rows (pk0 # ks) (the_join (pk0 # ks) N C) = Inr D"
  shows "D = \<lparr>columns = out_columns (pk0 # ks) C,
              rows = map (\<lambda>p. project (columns C) (out_columns (pk0 # ks) C) (snd p))
                       (bucket (cond_unchanged (the_join (pk0 # ks) N C) pk0) (outer_pairs (pk0 # ks) N C))\<rparr>"
  using assms
  by (auto simp: unchanged_rows_def select_cd_def filter_df_def the_join_def cd_star_def out_columns_def
      project_def bucket_def cd_col_def split: if_splits)

lemma project_project:
  "set out \<subseteq> set mid \<Longrightarrow> project mid out (project cols mid r) = project cols out r"
  by (auto simp: project_def cell_of_map)

lemma unionByName_Inr:
  "unionByName a b = Inr u \<Longrightarrow>
     distinct (columns a) \<and> distinct (columns b) \<and> set (columns a) = set (columns b) \<and>
     u = \<lparr>columns = columns a, rows = rows a @ map (project (columns b) (columns a)) (rows b)\<rparr>"
  by (auto simp: unionByName_def project_def split: if_splits)

lemma reconcile_Inr:
  assumes "reconcile C N pks = Inr R"
  shows "\<exists>pk0 ks. pks = pk0 # ks \<and>
           set pks \<subseteq> set (columns N) \<and> set pks \<subseteq> set (columns C) \<and>
           set (columns N) = set (columns C) \<and> distinct (out_columns pks N) \<and>
           changed_resolves (the_join pks N C) \<and>
           columns R = out_columns pks N \<and>
           rows R =
             map (\<lambda>p. project (columns N) (out_columns pks N) (fst p))
               (bucket (cond_new (the_join pks N C) pk0) (outer_pairs pks N C)) @
             map (\<lambda>p. project (columns N) (out_columns pks N) (fst p))
               (bucket (cond_updated (the_join pks N C) pk0) (outer_pairs pks N C)) @
             map (\<lambda>p. project (columns C) (out_columns pks N) (snd p))
               (bucket (cond_unchanged (the_join pks N C) pk0) (outer_pairs pks N C))"
proof -
  from assms obtain J upd ins unch u where
    j: "join_fullouter N C pks = Inr J" and
    up: "updated_rows pks (columns N) J = Inr upd" and
    nw: "new_rows pks J = Inr ins" and
    un: "unchanged_rows pks J = Inr unch" and
    u1: "unionByName ins upd = Inr u" and
    u2: "unionByName u unch = Inr R"
    by (auto simp: reconcile_def bindE_def split: sum.splits)
  from join_Inr [OF j] have ne: "pks \<noteq> []" and sN: "set pks \<subseteq> set (columns N)"
    and sC: "set pks \<subseteq> set (columns C)" and J: "J = the_join pks N C" by auto
  from ne obtain pk0 ks where pks: "pks = pk0 # ks" by (cases pks) auto
  note a = new_rows_Inr [OF nw [unfolded J pks], folded pks]
  note b = updated_rows_Inr [OF up [unfolded J pks], folded pks]
  note c = unchanged_rows_Inr [OF un [unfolded J pks], folded pks]
  from unionByName_Inr [OF u1] a b(1)
  have d: "distinct (out_columns pks N)"
    and u: "u = \<lparr>columns = out_columns pks N, rows = rows ins @ map (project (out_columns pks N) (out_columns pks N)) (rows upd)\<rparr>"
    by auto
  from unionByName_Inr [OF u2] u c
  have e: "set (out_columns pks N) = set (out_columns pks C)"
    and R: "R = \<lparr>columns = out_columns pks N, rows = rows u @ map (project (out_columns pks C) (out_columns pks N)) (rows unch)\<rparr>"
    by auto
  from e sN sC have cols: "set (columns N) = set (columns C)"
    by (simp add: set_out_columns)
  have "rows R = rows ins @ map (project (out_columns pks N) (out_columns pks N)) (rows upd) @
                 map (project (out_columns pks C) (out_columns pks N)) (rows unch)"
    using R u by simp
  also have "\<dots> = map (\<lambda>p. project (columns N) (out_columns pks N) (fst p))
               (bucket (cond_new (the_join pks N C) pk0) (outer_pairs pks N C)) @
             map (\<lambda>p. project (columns N) (out_columns pks N) (fst p))
               (bucket (cond_updated (the_join pks N C) pk0) (outer_pairs pks N C)) @
             map (\<lambda>p. project (columns C) (out_columns pks N) (snd p))
               (bucket (cond_unchanged (the_join pks N C) pk0) (outer_pairs pks N C))"
    using e by (simp add: a b(1) c project_project o_def)
  finally show ?thesis using pks sN sC cols d b(2) R by auto
qed

section \<open>The joined rows of one key\<close>

lemma key_of_nulls: "key_of pks N (nulls cols) = replicate (length pks) None"
  by (induction pks) (simp_all add: key_of_def cell_of_nulls)

lemma key_of_nulls_neq: "pks \<noteq> [] \<Longrightarrow> None \<notin> set k \<Longrightarrow> key_of pks N (nulls cols) \<noteq> k"
  by (auto simp: key_of_nulls)

lemma fst_expand: "p \<in> set (expand pks N C l) \<Longrightarrow> fst p = l"
  by (auto simp: expand_def Let_def split: if_splits)

lemma filter_expand:
  "filter (\<lambda>p. key_of pks N (fst p) = k) (expand pks N C l) =
     (if key_of pks N l = k then expand pks N C l else [])"
  by (auto simp: filter_empty_conv fst_expand intro!: filter_True)

lemma pairs_for_key:
  assumes "pks \<noteq> []" "None \<notin> set k"
  shows "filter (\<lambda>p. key_of pks N (fst p) = k) (outer_pairs pks N C) =
           concat (map (expand pks N C) (rows_for pks N k))"
proof -
  have "filter (\<lambda>p. key_of pks N (fst p) = k)
          (map (Pair (nulls (columns N))) (filter (unmatched pks N C) (rows C))) = []"
    using key_of_nulls_neq [OF assms] by (simp add: filter_empty_conv)
  moreover have "filter (\<lambda>p. key_of pks N (fst p) = k) (concat (map (expand pks N C) (rows N))) =
           concat (map (expand pks N C) (rows_for pks N k))"
    by (simp add: filter_concat o_def filter_expand concat_map_if rows_for_def)
  ultimately show ?thesis by (simp add: outer_pairs_def)
qed

lemma expand_key:
  assumes "key_of pks N l = k" "None \<notin> set k"
  shows "expand pks N C l =
           (if rows_for pks C k = [] then [(l, nulls (columns C))] else map (Pair l) (rows_for pks C k))"
proof -
  have "filter (keys_match pks (columns N) (columns C) l) (rows C) = rows_for pks C k"
    unfolding rows_for_def using assms by (intro filter_cong refl) (auto simp: keys_match_iff)
  then show ?thesis by (simp add: expand_def)
qed

lemma and3_Some_True [simp]: "and3 (Some True) x = x"
  by (cases "(Some True, x)" rule: and3.cases) auto

lemma and3_Some_False_right [simp]: "and3 x (Some False) = Some False"
  by (cases "(x, Some False)" rule: and3.cases) auto

lemma cond_left_only:
  "cond_new (the_join pks N C) pk0 (l, nulls (columns C)) = Some True"
  "cond_updated (the_join pks N C) pk0 (l, nulls (columns C)) = Some False"
  "cond_unchanged (the_join pks N C) pk0 (l, nulls (columns C)) = Some False"
  by (simp_all add: cond_new_def cond_updated_def cond_unchanged_def the_join_def cd_col_def
      isNull_def isNotNull_def cell_of_nulls)

lemma cond_right_only:
  "cond_updated (the_join pks N C) pk0 (nulls (columns N), r) = Some False"
  "cond_unchanged (the_join pks N C) pk0 (nulls (columns N), r) = Some False"
  by (simp_all add: cond_updated_def cond_unchanged_def the_join_def nd_col_def
      isNotNull_def cell_of_nulls)

lemma cond_matched:
  assumes "keys_match pks (columns N) (columns C) l r" "pk0 \<in> set pks"
  shows "cond_new (the_join pks N C) pk0 (l, r) = Some False"
    and "cond_updated (the_join pks N C) pk0 (l, r) = changed (the_join pks N C) (l, r)"
    and "cond_unchanged (the_join pks N C) pk0 (l, r) = not3 (changed (the_join pks N C) (l, r))"
proof -
  from assms have "cell_of (columns N) l pk0 \<noteq> None \<and>
                   cell_of (columns N) l pk0 = cell_of (columns C) r pk0"
    unfolding keys_match_def list_all_iff by blast
  then have "cell_of (columns N) l pk0 \<noteq> None" "cell_of (columns C) r pk0 \<noteq> None"
    by metis+
  then show "cond_new (the_join pks N C) pk0 (l, r) = Some False"
    and "cond_updated (the_join pks N C) pk0 (l, r) = changed (the_join pks N C) (l, r)"
    and "cond_unchanged (the_join pks N C) pk0 (l, r) = not3 (changed (the_join pks N C) (l, r))"
    by (simp_all add: cond_new_def cond_updated_def cond_unchanged_def the_join_def nd_col_def cd_col_def
      isNull_def isNotNull_def)
qed

lemma outer_pairs_cases:
  assumes "p \<in> set (outer_pairs pks N C)"
  obtains (left_only) l where "p = (l, nulls (columns C))" "l \<in> set (rows N)"
        "\<forall>r\<in>set (rows C). \<not> keys_match pks (columns N) (columns C) l r"
  | (matched) l r where "p = (l, r)" "l \<in> set (rows N)" "r \<in> set (rows C)"
        "keys_match pks (columns N) (columns C) l r"
  | (right_only) r where "p = (nulls (columns N), r)" "r \<in> set (rows C)"
        "\<forall>l\<in>set (rows N). \<not> keys_match pks (columns N) (columns C) l r"
  using assms
  by (auto simp: outer_pairs_def expand_def Let_def unmatched_def list_ex_iff filter_empty_conv
      split: if_splits)

lemma unchanged_keys:
  assumes "p \<in> set (outer_pairs pks N C)" "cond_unchanged (the_join pks N C) pk0 p = Some True"
  shows "key_of pks C (snd p) = key_of pks N (fst p)"
  using assms(1)
proof (cases rule: outer_pairs_cases)
  case (left_only l)
  with assms(2) show ?thesis by (simp add: cond_left_only)
next
  case (matched l r)
  then show ?thesis by (simp add: keys_match_iff)
next
  case (right_only r)
  with assms(2) show ?thesis by (simp add: cond_right_only)
qed

lemma key_of_project_row:
  "set pks \<subseteq> set (columns R) \<Longrightarrow> key_of pks R (project (columns D) (columns R) x) = key_of pks D x"
  by (auto simp: key_of_def project_def cell_of_map)

lemma bucket_filter:
  "filter P (bucket cond ps) = bucket cond (filter P ps)"
  by (induction ps) (auto simp: bucket_def)

lemma rows_for_reconcile:
  assumes rec: "reconcile C N pks = Inr R" and k: "None \<notin> set k"
  shows "rows_for pks R k =
     map (\<lambda>p. project (columns N) (columns R) (fst p))
       (bucket (cond_new (the_join pks N C) (hd pks)) (concat (map (expand pks N C) (rows_for pks N k)))) @
     map (\<lambda>p. project (columns N) (columns R) (fst p))
       (bucket (cond_updated (the_join pks N C) (hd pks)) (concat (map (expand pks N C) (rows_for pks N k)))) @
     map (\<lambda>p. project (columns C) (columns R) (snd p))
       (bucket (cond_unchanged (the_join pks N C) (hd pks)) (concat (map (expand pks N C) (rows_for pks N k))))"
proof -
  from reconcile_Inr [OF rec] obtain pk0 ks where
    pks: "pks = pk0 # ks" and sN: "set pks \<subseteq> set (columns N)" and
    cR: "columns R = out_columns pks N" and
    rR: "rows R =
             map (\<lambda>p. project (columns N) (out_columns pks N) (fst p))
               (bucket (cond_new (the_join pks N C) pk0) (outer_pairs pks N C)) @
             map (\<lambda>p. project (columns N) (out_columns pks N) (fst p))
               (bucket (cond_updated (the_join pks N C) pk0) (outer_pairs pks N C)) @
             map (\<lambda>p. project (columns C) (out_columns pks N) (snd p))
               (bucket (cond_unchanged (the_join pks N C) pk0) (outer_pairs pks N C))"
    by blast
  have hd: "hd pks = pk0" and ne: "pks \<noteq> []" using pks by simp_all
  have sR: "set pks \<subseteq> set (columns R)" using sN cR by (simp add: set_out_columns)
  let ?Jk = "concat (map (expand pks N C) (rows_for pks N k))"
  have fk: "filter (\<lambda>p. key_of pks N (fst p) = k) (outer_pairs pks N C) = ?Jk"
    by (rule pairs_for_key [OF ne k])
  have nd_part: "filter (\<lambda>r. key_of pks R r = k)
            (map (\<lambda>p. project (columns N) (columns R) (fst p)) (bucket cond (outer_pairs pks N C))) =
          map (\<lambda>p. project (columns N) (columns R) (fst p)) (bucket cond ?Jk)" for cond
    by (simp add: filter_map o_def key_of_project_row [OF sR] bucket_filter fk)
  have "filter (\<lambda>p. key_of pks C (snd p) = k) (bucket (cond_unchanged (the_join pks N C) pk0) (outer_pairs pks N C))
        = filter (\<lambda>p. key_of pks N (fst p) = k) (bucket (cond_unchanged (the_join pks N C) pk0) (outer_pairs pks N C))"
    by (rule filter_cong [OF refl]) (auto simp: bucket_def dest: unchanged_keys)
  then have cd_part: "filter (\<lambda>r. key_of pks R r = k)
            (map (\<lambda>p. project (columns C) (columns R) (snd p))
               (bucket (cond_unchanged (the_join pks N C) pk0) (outer_pairs pks N C))) =
          map (\<lambda>p. project (columns C) (columns R) (snd p))
            (bucket (cond_unchanged (the_join pks N C) pk0) ?Jk)"
    by (simp add: filter_map o_def key_of_project_row [OF sR] bucket_filter fk)
  show ?thesis
    unfolding rows_for_def [of pks R] rR cR [symmetric] hd filter_append nd_part cd_part ..
qed

lemma cell_of_project: "c \<in> set out \<Longrightarrow> cell_of out (project cols out r) c = cell_of cols r c"
  by (simp add: project_def cell_of_map)

lemma neq3_None_iff: "neq3 a b = None \<longleftrightarrow> a = None \<or> b = None"
  by (cases "(a, b)" rule: neq3.cases) auto

lemma or3_None_iff:
  "or3 a b = None \<longleftrightarrow> a \<noteq> Some True \<and> b \<noteq> Some True \<and> (a = None \<or> b = None)"
  by (cases "(a, b)" rule: or3.cases) auto

lemma or3_neq3_None:
  assumes "a = None \<or> b = None \<or> c = None \<or> d = None"
    and "a = None \<or> b = None \<or> a = b" and "c = None \<or> d = None \<or> c = d"
  shows "or3 (neq3 a b) (neq3 c d) = None"
  using assms unfolding or3_None_iff neq3_None_iff neq3_True_iff by auto

lemma changed_the_join:
  "changed (the_join pks N C) (l, r) =
     or3 (neq3 (cell_of (columns N) l ''value_col'') (cell_of (columns C) r ''value_col''))
         (neq3 (cell_of (columns N) l ''another_col'') (cell_of (columns C) r ''another_col''))"
  by (simp add: changed_def the_join_def nd_col_def cd_col_def)

lemma reconcile_columns:
  assumes "reconcile C N pks = Inr R"
  shows "pks \<noteq> []" "set pks \<subseteq> set (columns N)" "set (columns R) = set (columns N)"
    "set (columns C) = set (columns N)" "distinct (columns R)" "columns R = out_columns pks N"
    "''value_col'' \<in> set (columns N)" "''another_col'' \<in> set (columns N)"
  using reconcile_Inr [OF assms] by (auto simp: set_out_columns changed_resolves_def the_join_def)

lemma rows_for_absent: "\<not> has_key pks df k \<Longrightarrow> rows_for pks df k = []"
  by (auto simp: has_key_def rows_for_def filter_empty_conv)

text \<open>The rows of the reconciled dataset for a key with one row on each side.\<close>

lemma rows_for_both:
  assumes rec: "reconcile C N pks = Inr R"
    and "unique_keys pks N" "unique_keys pks C"
    and "l \<in> set (rows N)" "r \<in> set (rows C)"
    and "key_of pks N l = k" "key_of pks C r = k" "None \<notin> set k"
  shows "rows_for pks R k =
     (case changed (the_join pks N C) (l, r) of
        Some True \<Rightarrow> [project (columns N) (columns R) l]
      | Some False \<Rightarrow> [project (columns C) (columns R) r]
      | None \<Rightarrow> [])"
proof -
  have N: "rows_for pks N k = [l]" using assms by (simp add: rows_for_unique)
  have C: "rows_for pks C k = [r]" using assms by (simp add: rows_for_unique)
  have ex: "concat (map (expand pks N C) (rows_for pks N k)) = [(l, r)]"
    using assms by (simp add: N C expand_key)
  have m: "keys_match pks (columns N) (columns C) l r" using assms by (simp add: keys_match_iff)
  have pk0: "hd pks \<in> set pks" using reconcile_columns(1) [OF rec] by simp
  show ?thesis
    unfolding rows_for_reconcile [OF rec \<open>None \<notin> set k\<close>] ex
    by (cases "changed (the_join pks N C) (l, r)")
       (auto simp: bucket_def cond_matched [OF m pk0])
qed

lemma rows_for_new_only:
  assumes rec: "reconcile C N pks = Inr R"
    and "unique_keys pks N" "l \<in> set (rows N)" "key_of pks N l = k" "None \<notin> set k"
    and "\<not> has_key pks C k"
  shows "rows_for pks R k = [project (columns N) (columns R) l]"
proof -
  have N: "rows_for pks N k = [l]" using assms by (simp add: rows_for_unique)
  have C: "rows_for pks C k = []" using assms by (simp add: rows_for_absent)
  have ex: "concat (map (expand pks N C) (rows_for pks N k)) = [(l, nulls (columns C))]"
    using assms by (simp add: N C expand_key)
  show ?thesis
    unfolding rows_for_reconcile [OF rec \<open>None \<notin> set k\<close>] ex
    by (simp add: bucket_def cond_left_only)
qed


section \<open>Clean inputs\<close>

lemma clean_row:
  assumes "clean pks df" "r \<in> set (rows df)"
  shows "None \<notin> set (key_of pks df r)"
    and "cell_of (columns df) r ''value_col'' \<noteq> None"
    and "cell_of (columns df) r ''another_col'' \<noteq> None"
  using assms by (auto simp: clean_def list_all_iff)

lemma clean_pk0:
  assumes "clean pks df" "r \<in> set (rows df)" "pk0 \<in> set pks"
  shows "cell_of (columns df) r pk0 \<noteq> None"
proof -
  from assms(3) have "cell_of (columns df) r pk0 \<in> set (key_of pks df r)"
    by (simp add: key_of_def)
  with clean_row(1) [OF assms(1,2)] show ?thesis by metis
qed

lemma set_rows_reconcile:
  assumes rec: "reconcile C N pks = Inr R" and x: "x \<in> set (rows R)"
  obtains (ins) p where "p \<in> set (outer_pairs pks N C)"
        "cond_new (the_join pks N C) (hd pks) p = Some True"
        "x = project (columns N) (columns R) (fst p)"
  | (upd) p where "p \<in> set (outer_pairs pks N C)"
        "cond_updated (the_join pks N C) (hd pks) p = Some True"
        "x = project (columns N) (columns R) (fst p)"
  | (unch) p where "p \<in> set (outer_pairs pks N C)"
        "cond_unchanged (the_join pks N C) (hd pks) p = Some True"
        "x = project (columns C) (columns R) (snd p)"
proof -
  from reconcile_Inr [OF rec] obtain pk0 ks where
    pks: "pks = pk0 # ks" and
    cR: "columns R = out_columns pks N" and
    rR: "rows R =
             map (\<lambda>p. project (columns N) (out_columns pks N) (fst p))
               (bucket (cond_new (the_join pks N C) pk0) (outer_pairs pks N C)) @
             map (\<lambda>p. project (columns N) (out_columns pks N) (fst p))
               (bucket (cond_updated (the_join pks N C) pk0) (outer_pairs pks N C)) @
             map (\<lambda>p. project (columns C) (out_columns pks N) (snd p))
               (bucket (cond_unchanged (the_join pks N C) pk0) (outer_pairs pks N C))"
    by blast
  have hd: "pk0 = hd pks" using pks by simp
  from x show thesis
    unfolding rR cR [symmetric] hd using ins upd unch
    by (auto simp: bucket_def)
qed

text \<open>Every row of the reconciled dataset has the key of a row of New, when Current is clean.\<close>

lemma reconciled_key_in_new:
  assumes rec: "reconcile C N pks = Inr R" and cl: "clean pks C" and x: "x \<in> set (rows R)"
  shows "\<exists>l\<in>set (rows N). key_of pks R x = key_of pks N l"
proof -
  have pk0: "hd pks \<in> set pks" using reconcile_columns(1) [OF rec] by simp
  have sR: "set pks \<subseteq> set (columns R)" using reconcile_columns(2,3) [OF rec] by simp
  from rec x show ?thesis
  proof (cases rule: set_rows_reconcile)
    case (ins p)
    from ins(1) show ?thesis
    proof (cases rule: outer_pairs_cases)
      case (left_only l)
      then show ?thesis using ins(3) by (auto simp: key_of_project_row [OF sR])
    next
      case (matched l r)
      then show ?thesis using ins(2) by (simp add: cond_matched [OF _ pk0])
    next
      case (right_only r)
      with ins(2) have "cell_of (columns C) r (hd pks) = None"
        by (simp add: cond_new_def the_join_def cd_col_def isNull_def)
      with clean_pk0 [OF cl right_only(2) pk0] show ?thesis by simp
    qed
  next
    case (upd p)
    from upd(1) show ?thesis
    proof (cases rule: outer_pairs_cases)
      case (left_only l)
      then show ?thesis using upd(2) by (simp add: cond_left_only)
    next
      case (matched l r)
      then show ?thesis using upd(3) by (auto simp: key_of_project_row [OF sR])
    next
      case (right_only r)
      then show ?thesis using upd(2) by (simp add: cond_right_only)
    qed
  next
    case (unch p)
    from unch(1) show ?thesis
    proof (cases rule: outer_pairs_cases)
      case (left_only l)
      then show ?thesis using unch(2) by (simp add: cond_left_only)
    next
      case (matched l r)
      then have "key_of pks R x = key_of pks N l"
        using unch(3) by (simp add: key_of_project_row [OF sR] keys_match_iff)
      with matched(2) show ?thesis by blast
    next
      case (right_only r)
      then show ?thesis using unch(2) by (simp add: cond_right_only)
    qed
  qed
qed

lemma expand_cases:
  assumes "p \<in> set (expand pks N C l)"
  obtains (left_only) "p = (l, nulls (columns C))"
  | (matched) r where "p = (l, r)" "r \<in> set (rows C)" "keys_match pks (columns N) (columns C) l r"
  using assms by (auto simp: expand_def Let_def split: if_splits)

lemma expand_nonempty: "expand pks N C l \<noteq> []"
  by (simp add: expand_def Let_def)

lemma neq3_Some: "a \<noteq> None \<Longrightarrow> b \<noteq> None \<Longrightarrow> neq3 a b = Some (a \<noteq> b)"
  by (cases "(a, b)" rule: neq3.cases) auto

lemma or3_Some: "or3 (Some a) (Some b) = Some (a \<or> b)"
  by (cases "(Some a, Some b)" rule: or3.cases) auto

lemma changed_clean:
  assumes "clean pks N" "clean pks C" "l \<in> set (rows N)" "r \<in> set (rows C)"
  shows "changed (the_join pks N C) (l, r) =
           Some (cell_of (columns N) l ''value_col'' \<noteq> cell_of (columns C) r ''value_col'' \<or>
                 cell_of (columns N) l ''another_col'' \<noteq> cell_of (columns C) r ''another_col'')"
  unfolding changed_the_join
  using clean_row(2,3) [OF assms(1,3)] clean_row(2,3) [OF assms(2,4)]
  by (simp add: neq3_Some or3_Some)

text \<open>
  With clean inputs and unique keys in New, every row of New has at least one row in the
  reconciled dataset, and each such row agrees with it on the two compared columns.
\<close>

lemma reconciled_rows_of_new:
  assumes rec: "reconcile C N pks = Inr R"
    and un: "unique_keys pks N" and clN: "clean pks N" and clC: "clean pks C"
    and l: "l \<in> set (rows N)"
  shows "rows_for pks R (key_of pks N l) \<noteq> []"
    and "\<forall>x\<in>set (rows_for pks R (key_of pks N l)).
           cell_of (columns R) x ''value_col'' = cell_of (columns N) l ''value_col'' \<and>
           cell_of (columns R) x ''another_col'' = cell_of (columns N) l ''another_col''"
proof -
  let ?k = "key_of pks N l"
  let ?J = "the_join pks N C"
  have k: "None \<notin> set ?k" by (rule clean_row(1) [OF clN l])
  have pk0: "hd pks \<in> set pks" using reconcile_columns(1) [OF rec] by simp
  have vR: "''value_col'' \<in> set (columns R)" "''another_col'' \<in> set (columns R)"
    using reconcile_columns(3,7,8) [OF rec] by simp_all
  have N: "rows_for pks N ?k = [l]" using un l by (simp add: rows_for_unique)
  have rf: "rows_for pks R ?k =
     map (\<lambda>p. project (columns N) (columns R) (fst p))
       (bucket (cond_new ?J (hd pks)) (expand pks N C l)) @
     map (\<lambda>p. project (columns N) (columns R) (fst p))
       (bucket (cond_updated ?J (hd pks)) (expand pks N C l)) @
     map (\<lambda>p. project (columns C) (columns R) (snd p))
       (bucket (cond_unchanged ?J (hd pks)) (expand pks N C l))"
    unfolding rows_for_reconcile [OF rec k] N by simp
  have some: "cond_new ?J (hd pks) p = Some True \<or> cond_updated ?J (hd pks) p = Some True \<or>
              cond_unchanged ?J (hd pks) p = Some True" if "p \<in> set (expand pks N C l)" for p
    using that
  proof (cases rule: expand_cases)
    case left_only
    then show ?thesis by (simp add: cond_left_only)
  next
    case (matched r)
    then show ?thesis
      by (simp add: cond_matched [OF matched(3) pk0] changed_clean [OF clN clC l matched(2)])
  qed
  obtain p where p: "p \<in> set (expand pks N C l)"
    using expand_nonempty [of pks N C l] by (cases "expand pks N C l") auto
  from some [OF p] p show "rows_for pks R ?k \<noteq> []"
    unfolding rf by (auto simp: bucket_def filter_empty_conv)
  show "\<forall>x\<in>set (rows_for pks R ?k).
           cell_of (columns R) x ''value_col'' = cell_of (columns N) l ''value_col'' \<and>
           cell_of (columns R) x ''another_col'' = cell_of (columns N) l ''another_col''"
  proof
    fix x assume "x \<in> set (rows_for pks R ?k)"
    then consider
      (nd_side) p where "p \<in> set (expand pks N C l)" "x = project (columns N) (columns R) (fst p)"
      | (cd_side) p where "p \<in> set (expand pks N C l)" "cond_unchanged ?J (hd pks) p = Some True"
          "x = project (columns C) (columns R) (snd p)"
      unfolding rf by (auto simp: bucket_def)
    then show "cell_of (columns R) x ''value_col'' = cell_of (columns N) l ''value_col'' \<and>
           cell_of (columns R) x ''another_col'' = cell_of (columns N) l ''another_col''"
    proof cases
      case (nd_side p)
      then show ?thesis using vR by (simp add: fst_expand cell_of_project)
    next
      case (cd_side p)
      from cd_side(1) show ?thesis
      proof (cases rule: expand_cases)
        case left_only
        then show ?thesis using cd_side(2) by (simp add: cond_left_only)
      next
        case (matched r)
        with cd_side(2) have "changed ?J (l, r) = Some False"
          by (simp add: cond_matched [OF matched(3) pk0] not3_True_iff)
        then have "cell_of (columns N) l ''value_col'' = cell_of (columns C) r ''value_col''"
          "cell_of (columns N) l ''another_col'' = cell_of (columns C) r ''another_col''"
          by (simp_all add: changed_clean [OF clN clC l matched(2)])
        then show ?thesis using cd_side(3) matched(1) vR by (simp add: cell_of_project)
      qed
    qed
  qed
qed

lemma buckets_disjoint:
  assumes "cond_unchanged J pk0 p = Some True"
  shows "cond_new J pk0 p = Some False" "cond_updated J pk0 p = Some False"
  using assms
  by (simp_all add: cond_unchanged_def cond_new_def cond_updated_def and3_True_iff not3_True_iff
      isNull_def isNotNull_def)

lemma reconcile_succeeds:
  assumes "pks \<noteq> []" "set pks \<subseteq> set (columns N)" "set (columns C) = set (columns N)"
    and "distinct (out_columns pks N)" "distinct (out_columns pks C)"
    and "''value_col'' \<in> set (columns N)" "''another_col'' \<in> set (columns N)"
  shows "\<exists>R. reconcile C N pks = Inr R"
proof -
  from assms(1) obtain pk0 ks where pks: "pks = pk0 # ks" by (cases pks) auto
  have pk0: "pk0 \<in> set (columns N)" using assms(2) pks by simp
  have sub: "set ks \<subseteq> set (columns N)" using assms(2) pks by simp
  have st: "set (out_columns pks N) = set (out_columns pks C)"
    using assms(2,3) by (simp add: set_out_columns)
  show ?thesis
    using assms(3-7) pk0 sub st unfolding pks
    by (auto simp: reconcile_def bindE_def join_fullouter_def updated_rows_def new_rows_def
        unchanged_rows_def changed_resolves_def select_nd_def select_cd_def filter_df_def
        nd_star_def cd_star_def unionByName_def out_columns_def)
qed

lemma second_join_all_unchanged:
  assumes rec: "reconcile C N pks = Inr R"
    and un: "unique_keys pks N" and clN: "clean pks N" and clC: "clean pks C"
    and p: "p \<in> set (outer_pairs pks N R)"
  shows "cond_unchanged (the_join pks N R) (hd pks) p = Some True"
proof -
  have pk0: "hd pks \<in> set pks" using reconcile_columns(1) [OF rec] by simp
  from p show ?thesis
  proof (cases rule: outer_pairs_cases)
    case (left_only l)
    from reconciled_rows_of_new(1) [OF rec un clN clC left_only(2)]
    obtain x where "x \<in> set (rows_for pks R (key_of pks N l))"
      by (cases "rows_for pks R (key_of pks N l)") auto
    then have "x \<in> set (rows R)" "key_of pks R x = key_of pks N l"
      by (simp_all add: rows_for_def)
    then have "keys_match pks (columns N) (columns R) l x"
      using clean_row(1) [OF clN left_only(2)] by (simp add: keys_match_iff)
    with left_only(3) \<open>x \<in> set (rows R)\<close> show ?thesis by blast
  next
    case (matched l x)
    then have "x \<in> set (rows_for pks R (key_of pks N l))"
      by (simp add: rows_for_def keys_match_iff)
    with reconciled_rows_of_new(2) [OF rec un clN clC matched(2)]
    have eq: "cell_of (columns R) x ''value_col'' = cell_of (columns N) l ''value_col''"
      "cell_of (columns R) x ''another_col'' = cell_of (columns N) l ''another_col''"
      by simp_all
    have "changed (the_join pks N R) (l, x) = Some False"
      unfolding changed_the_join eq
      using clean_row(2,3) [OF clN matched(2)] by (simp add: neq3_Some or3_Some)
    then show ?thesis
      using matched(1) by (simp add: cond_matched [OF matched(4) pk0])
  next
    case (right_only x)
    from reconciled_key_in_new [OF rec clC right_only(2)]
    obtain l where l: "l \<in> set (rows N)" "key_of pks R x = key_of pks N l" by blast
    then have "keys_match pks (columns N) (columns R) l x"
      using clean_row(1) [OF clN l(1)] by (simp add: keys_match_iff)
    with right_only(3) l(1) show ?thesis by blast
  qed
qed


section \<open>The write\<close>

text \<open>
  When the DataFrame is built, the three connection properties are present and the writer
  accepts the request, the function hands the reconciled dataset to the writer in mode
  \<^verbatim>\<open>overwrite\<close> and prints its message.
\<close>

lemma write_on_success:
  assumes "reconcile current_data new_data primary_keys = Inr final_df"
    and "map_of aurora_properties ''user'' = Some u"
    and "map_of aurora_properties ''password'' = Some pw"
    and "map_of aurora_properties ''driver'' = Some d"
    and "save \<lparr>url = aurora_jdbc_url, dbtable = aurora_table_name, user = u, password = pw,
                driver = d, mode = ''overwrite'', payload = final_df\<rparr> (destination w) =
           (Inr (), db')"
  shows "update_and_load_to_aurora save current_data new_data primary_keys aurora_jdbc_url
           aurora_table_name aurora_properties w =
         (Inr (), \<lparr>destination = db',
                   stdout = stdout w @
                     [''Data successfully updated and loaded to Aurora table: '' @
                      aurora_table_name]\<rparr>)"
  using assms by (simp add: update_and_load_to_aurora_def)

lemma reconcile_error_no_write:
  assumes "reconcile current_data new_data primary_keys = Inl e"
  shows "update_and_load_to_aurora save current_data new_data primary_keys aurora_jdbc_url
           aurora_table_name aurora_properties w = (Inl e, w)"
  using assms by (simp add: update_and_load_to_aurora_def)

section \<open>Runs of the example datasets\<close>

lemma ex_run: "reconcile ex_current ex_new [''id''] = Inr ex_reconciled"
  by code_simp

lemma same_run: "reconcile same_current same_new [''id''] = Inr same_reconciled"
  by code_simp

lemma half_null_run: "reconcile half_null_current half_null_new [''id''] = Inr (three_col [])"
  by code_simp

section \<open>The row count on clean inputs\<close>

text \<open>
  If the run succeeds, Current has unique keys and neither input has NULL in a key column
  or in a compared column, every row of New is joined to one row and that joined row is in
  exactly one bucket, and no other joined row is in a bucket: the reconciled dataset has as
  many rows as New.
\<close>

lemma sum_hits:
  "length (bucket (cond_new J pk0) ps) + length (bucket (cond_updated J pk0) ps) +
   length (bucket (cond_unchanged J pk0) ps) = sum_list (map (hits J pk0) ps)"
  by (induction ps) (auto simp: bucket_def hits_def)

lemma sum_list_all: "\<forall>x\<in>set xs. f x = (c::nat) \<Longrightarrow> sum_list (map f xs) = c * length xs"
  by (induction xs) auto

lemma sum_hits_concat:
  "sum_list (map (hits J pk0) (concat xss)) = sum_list (map (\<lambda>xs. sum_list (map (hits J pk0) xs)) xss)"
  by (induction xss) auto

lemma row_count_clean:
  assumes rec: "reconcile C N pks = Inr R"
    and uC: "unique_keys pks C" and clN: "clean pks N" and clC: "clean pks C"
  shows "length (rows R) = length (rows N)"
proof -
  let ?J = "the_join pks N C"
  from reconcile_Inr [OF rec] obtain pk0 ks where
    pks: "pks = pk0 # ks" and
    rR: "rows R =
             map (\<lambda>p. project (columns N) (out_columns pks N) (fst p))
               (bucket (cond_new ?J pk0) (outer_pairs pks N C)) @
             map (\<lambda>p. project (columns N) (out_columns pks N) (fst p))
               (bucket (cond_updated ?J pk0) (outer_pairs pks N C)) @
             map (\<lambda>p. project (columns C) (out_columns pks N) (snd p))
               (bucket (cond_unchanged ?J pk0) (outer_pairs pks N C))"
    by blast
  have pk0: "pk0 \<in> set pks" using pks by simp
  have one: "sum_list (map (hits ?J pk0) (expand pks N C l)) = 1" if l: "l \<in> set (rows N)" for l
  proof -
    let ?k = "key_of pks N l"
    have k: "None \<notin> set ?k" by (rule clean_row(1) [OF clN l])
    show ?thesis
    proof (cases "rows_for pks C ?k")
      case Nil
      then show ?thesis
        by (simp add: expand_key [OF refl k] hits_def cond_left_only)
    next
      case (Cons r rs)
      then have "r \<in> set (rows_for pks C ?k)" by simp
      then have r: "r \<in> set (rows C)" "key_of pks C r = ?k"
        by (simp_all add: rows_for_def)
      from rows_for_unique [OF uC r] Cons have ex: "expand pks N C l = [(l, r)]"
        by (simp add: expand_key [OF refl k])
      have m: "keys_match pks (columns N) (columns C) l r" using r k by (simp add: keys_match_iff)
      show ?thesis
        unfolding ex
        by (simp add: hits_def cond_matched [OF m pk0] changed_clean [OF clN clC l r(1)])
    qed
  qed
  have zero: "hits ?J pk0 (nulls (columns N), r) = 0" if r: "r \<in> set (rows C)" for r
  proof -
    have "cell_of (columns C) r pk0 \<noteq> None" by (rule clean_pk0 [OF clC r pk0])
    then have "cond_new ?J pk0 (nulls (columns N), r) = Some False"
      by (simp add: cond_new_def the_join_def cd_col_def isNull_def)
    then show ?thesis by (simp add: hits_def cond_right_only)
  qed
  have "length (rows R) = sum_list (map (hits ?J pk0) (outer_pairs pks N C))"
    unfolding rR by (simp add: sum_hits [symmetric])
  also have "\<dots> = sum_list (map (\<lambda>l. sum_list (map (hits ?J pk0) (expand pks N C l))) (rows N)) +
                  sum_list (map (\<lambda>r. hits ?J pk0 (nulls (columns N), r)) (filter (unmatched pks N C) (rows C)))"
    unfolding outer_pairs_def map_append sum_list_append sum_hits_concat map_map o_def ..
  also have "sum_list (map (\<lambda>l. sum_list (map (hits ?J pk0) (expand pks N C l))) (rows N)) = length (rows N)"
    using sum_list_all [of "rows N" "\<lambda>l. sum_list (map (hits ?J pk0) (expand pks N C l))" 1] one by simp
  also have "sum_list (map (\<lambda>r. hits ?J pk0 (nulls (columns N), r)) (filter (unmatched pks N C) (rows C))) = 0"
    using zero by simp
  finally show ?thesis by simp
qed

section \<open>The second run on clean inputs\<close>

text \<open>
  Where no NULL is involved the second run is as the specification describes it: if the
  first run succeeds, New has unique keys, and neither input has NULL in a key column or
  in a compared column, then the second run succeeds, every joined row satisfies the
  Unchanged condition, and the Inserted and the Updated bucket are empty.
\<close>

lemma second_run_all_unchanged:
  assumes "reconcile current_data new_data pks = Inr R1"
    and "unique_keys pks new_data" "clean pks new_data" "clean pks current_data"
  shows "\<exists>pk0 ks J2 ins upd R2.
           pks = pk0 # ks \<and> join_fullouter new_data R1 pks = Inr J2 \<and>
           (\<forall>p\<in>set (pairs J2). cond_unchanged J2 pk0 p = Some True) \<and>
           new_rows pks J2 = Inr ins \<and> rows ins = [] \<and>
           updated_rows pks (columns new_data) J2 = Inr upd \<and> rows upd = [] \<and>
           reconcile R1 new_data pks = Inr R2"
proof -
  note c = reconcile_columns [OF assms(1)]
  from c(1) obtain pk0 ks where pks: "pks = pk0 # ks" by (cases pks) auto
  let ?J = "the_join pks new_data R1"
  have j: "join_fullouter new_data R1 pks = Inr ?J"
    using c(1,2,3) by (simp add: join_fullouter_def the_join_def)
  have all: "\<forall>p\<in>set (pairs ?J). cond_unchanged ?J pk0 p = Some True"
    using second_join_all_unchanged [OF assms] pks by (simp add: the_join_def)
  have pk0: "pk0 \<in> set (columns new_data)" "pk0 \<in> set (columns R1)"
    using c(2,3) pks by simp_all
  have e1: "filter (\<lambda>p. cond_new ?J pk0 p = Some True) (pairs ?J) = []"
    using all by (auto simp: filter_empty_conv buckets_disjoint)
  have e2: "filter (\<lambda>p. cond_updated ?J pk0 p = Some True) (pairs ?J) = []"
    using all by (auto simp: filter_empty_conv buckets_disjoint)
  have ins: "new_rows pks ?J = Inr \<lparr>columns = nd_star ?J, rows = []\<rparr>"
    using pk0 c(2) e1 unfolding pks
    by (auto simp: new_rows_def select_nd_def filter_df_def nd_star_def the_join_def)
  have upd: "updated_rows pks (columns new_data) ?J =
               Inr \<lparr>columns = out_columns pks new_data, rows = []\<rparr>"
    using pk0 c(2,3,7,8) e2 unfolding pks
    by (auto simp: updated_rows_def select_nd_def filter_df_def the_join_def changed_resolves_def
        out_columns_def)
  have "out_columns pks R1 = out_columns pks new_data"
    using c(6) by (simp add: out_columns_def)
  then have "\<exists>R2. reconcile R1 new_data pks = Inr R2"
    using c by (intro reconcile_succeeds) simp_all
  with pks j all ins upd show ?thesis by auto
qed

lemma second_run_all_unchanged_example:
  "reconcile ex_current ex_new [''id''] = Inr ex_reconciled \<and>
   (\<exists>pk0 ks J2 ins upd R2.
      [''id''] = pk0 # ks \<and> join_fullouter ex_new ex_reconciled [''id''] = Inr J2 \<and>
      (\<forall>p\<in>set (pairs J2). cond_unchanged J2 pk0 p = Some True) \<and>
      new_rows [''id''] J2 = Inr ins \<and> rows ins = [] \<and>
      updated_rows [''id''] (columns ex_new) J2 = Inr upd \<and> rows upd = [] \<and>
      reconcile ex_reconciled ex_new [''id''] = Inr R2)"
proof -
  have h1: "reconcile ex_current ex_new [''id''] = Inr ex_reconciled" by (rule ex_run)
  have h2: "unique_keys [''id''] ex_new" by code_simp
  have h3: "clean [''id''] ex_new" by code_simp
  have h4: "clean [''id''] ex_current" by code_simp
  from second_run_all_unchanged [OF h1 h2 h3 h4] h1 show ?thesis by blast
qed

section \<open>The properties\<close>

text \<open>
  C1 (row-count law). The claim: for inputs with unique primary keys the reconciled dataset
  has exactly one row for every key of New, so that its size is the number of keys only in
  New plus the number of keys in both. On clean inputs this is \<open>row_count_clean\<close>. The
  function loses a key of both inputs when one of its compared cells is NULL:
  \<open>null_current\<close> and \<open>null_new\<close> have unique keys, key 1 is in both with the same
  \<^verbatim>\<open>value_col\<close> and NULL in \<^verbatim>\<open>another_col\<close> on both sides, New has three rows, and the
  reconciled dataset has two, none of them for key 1.
\<close>

theorem row_count_law_broken_by_null:
  "unique_keys [''id''] null_current \<and> unique_keys [''id''] null_new \<and>
   has_key [''id''] null_current [Some (IntV 1)] \<and> has_key [''id''] null_new [Some (IntV 1)] \<and>
   length (rows null_new) = 3 \<and>
   reconcile null_current null_new [''id''] =
     Inr \<lparr>columns = [''id'', ''value_col'', ''another_col''],
          rows = [[Some (IntV 3), Some (StrV ''c''), Some (StrV ''z'')],
                  [Some (IntV 2), Some (StrV ''b''), Some (StrV ''y'')]]\<rparr>"
  by code_simp

text \<open>
  C2 (inserted rows). If the run succeeds and New has unique keys, then for a row \<open>l\<close> of
  New whose key \<open>k\<close> (a key has no NULL component) is not a key of Current, the reconciled
  dataset has the columns of New and exactly one row for \<open>k\<close>, and that row has the
  cell of \<open>l\<close> under every column.
\<close>

theorem inserted_row:
  assumes "reconcile current_data new_data pks = Inr R"
    and "unique_keys pks new_data"
    and "l \<in> set (rows new_data)" "key_of pks new_data l = k" "None \<notin> set k"
    and "\<not> has_key pks current_data k"
  shows "set (columns R) = set (columns new_data) \<and>
         (\<exists>r'. rows_for pks R k = [r'] \<and>
           (\<forall>c\<in>set (columns new_data). cell_of (columns R) r' c = cell_of (columns new_data) l c))"
  using rows_for_new_only [OF assms] reconcile_columns(3) [OF assms(1)]
  by (simp add: cell_of_project)

theorem inserted_row_witness:
  "reconcile ex_current ex_new [''id''] = Inr ex_reconciled \<and>
   \<not> has_key [''id''] ex_current [Some (IntV 3)] \<and>
   set (columns ex_reconciled) = set (columns ex_new) \<and>
   (\<exists>r'. rows_for [''id''] ex_reconciled [Some (IntV 3)] = [r'] \<and>
      (\<forall>c\<in>set (columns ex_new).
         cell_of (columns ex_reconciled) r' c =
         cell_of (columns ex_new) [Some (IntV 3), Some (StrV ''c''), Some (StrV ''x'')] c))"
proof -
  have h1: "reconcile ex_current ex_new [''id''] = Inr ex_reconciled" by (rule ex_run)
  have h2: "unique_keys [''id''] ex_new" by code_simp
  have h3: "[Some (IntV 3), Some (StrV ''c''), Some (StrV ''x'')] \<in> set (rows ex_new)"
    by code_simp
  have h4: "key_of [''id''] ex_new [Some (IntV 3), Some (StrV ''c''), Some (StrV ''x'')] =
              [Some (IntV 3)]" by code_simp
  have h5: "None \<notin> set [Some (IntV 3)]" by simp
  have h6: "\<not> has_key [''id''] ex_current [Some (IntV 3)]" by code_simp
  from inserted_row [OF h1 h2 h3 h4 h5 h6] h1 h6 show ?thesis by blast
qed

text \<open>
  C3 (deletion by omission). If the run succeeds, a key \<open>k\<close> of Current (a key has no NULL
  component) that is not a key of New has no row in the reconciled dataset.
\<close>

theorem deleted_row:
  assumes "reconcile current_data new_data pks = Inr R"
    and "has_key pks current_data k" "\<not> has_key pks new_data k" "None \<notin> set k"
  shows "rows_for pks R k = []"
  unfolding rows_for_reconcile [OF assms(1,4)] rows_for_absent [OF assms(3)]
  by (simp add: bucket_def)

theorem deleted_row_witness:
  "has_key [''id''] ex_current [Some (IntV 1)] \<and> \<not> has_key [''id''] ex_new [Some (IntV 1)] \<and>
   rows_for [''id''] ex_reconciled [Some (IntV 1)] = []"
proof -
  have h1: "reconcile ex_current ex_new [''id''] = Inr ex_reconciled" by (rule ex_run)
  have h2: "has_key [''id''] ex_current [Some (IntV 1)]" by code_simp
  have h3: "\<not> has_key [''id''] ex_new [Some (IntV 1)]" by code_simp
  have h4: "None \<notin> set [Some (IntV 1)]" by simp
  from deleted_row [OF h1 h2 h3 h4] h2 h3 show ?thesis by blast
qed

text \<open>
  C4 (updated rows). If the run succeeds and both inputs have unique keys, then for a row
  \<open>l\<close> of New and a row \<open>r\<close> of Current with the same key \<open>k\<close> that differ in
  \<^verbatim>\<open>value_col\<close> or in \<^verbatim>\<open>another_col\<close>, both cells of the differing column being
  non-NULL, the reconciled dataset has the columns of New and exactly one row for \<open>k\<close>,
  and that row has the cell of \<open>l\<close> under every column, key columns included.
\<close>

theorem updated_row:
  assumes "reconcile current_data new_data pks = Inr R"
    and "unique_keys pks new_data" "unique_keys pks current_data"
    and "l \<in> set (rows new_data)" "r \<in> set (rows current_data)"
    and "key_of pks new_data l = k" "key_of pks current_data r = k" "None \<notin> set k"
    and "(cell_of (columns new_data) l ''value_col'' \<noteq> None \<and>
          cell_of (columns current_data) r ''value_col'' \<noteq> None \<and>
          cell_of (columns new_data) l ''value_col'' \<noteq> cell_of (columns current_data) r ''value_col'') \<or>
         (cell_of (columns new_data) l ''another_col'' \<noteq> None \<and>
          cell_of (columns current_data) r ''another_col'' \<noteq> None \<and>
          cell_of (columns new_data) l ''another_col'' \<noteq> cell_of (columns current_data) r ''another_col'')"
  shows "set (columns R) = set (columns new_data) \<and>
         (\<exists>r'. rows_for pks R k = [r'] \<and>
           (\<forall>c\<in>set (columns new_data). cell_of (columns R) r' c = cell_of (columns new_data) l c))"
proof -
  have "changed (the_join pks new_data current_data) (l, r) = Some True"
    using assms(9) by (simp add: changed_the_join or3_True_iff neq3_True_iff)
  then show ?thesis
    using rows_for_both [OF assms(1-8)] reconcile_columns(3) [OF assms(1)]
    by (simp add: cell_of_project)
qed

theorem updated_row_witness:
  "reconcile ex_current ex_new [''id''] = Inr ex_reconciled \<and>
   set (columns ex_reconciled) = set (columns ex_new) \<and>
   (\<exists>r'. rows_for [''id''] ex_reconciled [Some (IntV 2)] = [r'] \<and>
      (\<forall>c\<in>set (columns ex_new).
         cell_of (columns ex_reconciled) r' c =
         cell_of (columns ex_new) [Some (IntV 2), Some (StrV ''B''), Some (StrV ''x'')] c))"
proof -
  let ?l = "[Some (IntV 2), Some (StrV ''B''), Some (StrV ''x'')]"
  let ?r = "[Some (IntV 2), Some (StrV ''b''), Some (StrV ''x'')]"
  have h1: "reconcile ex_current ex_new [''id''] = Inr ex_reconciled" by (rule ex_run)
  have h2: "unique_keys [''id''] ex_new" by code_simp
  have h3: "unique_keys [''id''] ex_current" by code_simp
  have h4: "?l \<in> set (rows ex_new)" by code_simp
  have h5: "?r \<in> set (rows ex_current)" by code_simp
  have h6: "key_of [''id''] ex_new ?l = [Some (IntV 2)]" by code_simp
  have h7: "key_of [''id''] ex_current ?r = [Some (IntV 2)]" by code_simp
  have h8: "None \<notin> set [Some (IntV 2)]" by simp
  have h9: "(cell_of (columns ex_new) ?l ''value_col'' \<noteq> None \<and>
          cell_of (columns ex_current) ?r ''value_col'' \<noteq> None \<and>
          cell_of (columns ex_new) ?l ''value_col'' \<noteq> cell_of (columns ex_current) ?r ''value_col'') \<or>
         (cell_of (columns ex_new) ?l ''another_col'' \<noteq> None \<and>
          cell_of (columns ex_current) ?r ''another_col'' \<noteq> None \<and>
          cell_of (columns ex_new) ?l ''another_col'' \<noteq> cell_of (columns ex_current) ?r ''another_col'')"
    by code_simp
  from updated_row [OF h1 h2 h3 h4 h5 h6 h7 h8 h9] h1 show ?thesis by blast
qed

text \<open>
  C5 (unchanged rows). If the run succeeds and both inputs have unique keys, then for a row
  \<open>l\<close> of New and a row \<open>r\<close> of Current with the same key \<open>k\<close> whose cells under
  \<^verbatim>\<open>value_col\<close> and under \<^verbatim>\<open>another_col\<close> are non-NULL and equal, the reconciled
  dataset has the columns of Current and exactly one row for \<open>k\<close>, and that row has the
  cell of \<open>r\<close> under every column.
\<close>

theorem unchanged_row:
  assumes "reconcile current_data new_data pks = Inr R"
    and "unique_keys pks new_data" "unique_keys pks current_data"
    and "l \<in> set (rows new_data)" "r \<in> set (rows current_data)"
    and "key_of pks new_data l = k" "key_of pks current_data r = k" "None \<notin> set k"
    and "cell_of (columns new_data) l ''value_col'' \<noteq> None"
        "cell_of (columns new_data) l ''value_col'' = cell_of (columns current_data) r ''value_col''"
    and "cell_of (columns new_data) l ''another_col'' \<noteq> None"
        "cell_of (columns new_data) l ''another_col'' = cell_of (columns current_data) r ''another_col''"
  shows "set (columns R) = set (columns current_data) \<and>
         (\<exists>r'. rows_for pks R k = [r'] \<and>
           (\<forall>c\<in>set (columns current_data). cell_of (columns R) r' c = cell_of (columns current_data) r c))"
proof -
  have "changed (the_join pks new_data current_data) (l, r) = Some False"
    using assms(9-12) by (simp add: changed_the_join or3_False_iff neq3_False_iff)
  then show ?thesis
    using rows_for_both [OF assms(1-8)] reconcile_columns(3,4) [OF assms(1)]
    by (simp add: cell_of_project)
qed

theorem unchanged_row_witness:
  "reconcile same_current same_new [''id''] = Inr same_reconciled \<and>
   set (columns same_reconciled) = set (columns same_current) \<and>
   (\<exists>r'. rows_for [''id''] same_reconciled [Some (IntV 2)] = [r'] \<and>
      (\<forall>c\<in>set (columns same_current).
         cell_of (columns same_reconciled) r' c =
         cell_of (columns same_current) [Some (IntV 2), Some (StrV ''b''), Some (StrV ''y'')] c))"
proof -
  let ?l = "[Some (IntV 2), Some (StrV ''b''), Some (StrV ''y'')]"
  have h1: "reconcile same_current same_new [''id''] = Inr same_reconciled" by (rule same_run)
  have h2: "unique_keys [''id''] same_new" by code_simp
  have h3: "unique_keys [''id''] same_current" by code_simp
  have h4: "?l \<in> set (rows same_new)" by code_simp
  have h5: "?l \<in> set (rows same_current)" by code_simp
  have h6: "key_of [''id''] same_new ?l = [Some (IntV 2)]" by code_simp
  have h7: "key_of [''id''] same_current ?l = [Some (IntV 2)]" by code_simp
  have h8: "None \<notin> set [Some (IntV 2)]" by simp
  have h9: "cell_of (columns same_new) ?l ''value_col'' \<noteq> None" by code_simp
  have h10: "cell_of (columns same_new) ?l ''value_col'' =
             cell_of (columns same_current) ?l ''value_col''" by code_simp
  have h11: "cell_of (columns same_new) ?l ''another_col'' \<noteq> None" by code_simp
  have h12: "cell_of (columns same_new) ?l ''another_col'' =
             cell_of (columns same_current) ?l ''another_col''" by code_simp
  from unchanged_row [OF h1 h2 h3 h4 h5 h6 h7 h8 h9 h10 h11 h12] h1 show ?thesis by blast
qed

text \<open>
  C6 (the example). On the datasets of the example as the specification writes them, with
  the columns \<^verbatim>\<open>id\<close> and \<^verbatim>\<open>value_col\<close> only, the function fails: the condition of the
  Updated filter reads \<^verbatim>\<open>another_col\<close>, which neither dataset has.
\<close>

theorem spec_example_fails:
  "reconcile spec_current spec_new [''id''] = Inl AnalysisException \<and>
   taxonomy AnalysisException = SchemaMismatch"
  by code_simp

text \<open>
  C6, as amended. With a third column \<^verbatim>\<open>another_col\<close> that holds \<^verbatim>\<open>"x"\<close> in every row of
  both datasets, the reconciled dataset is the row of id 3 (inserted) followed by the row
  of id 2 with New's \<^verbatim>\<open>"B"\<close> (updated); id 1 is dropped.
\<close>

theorem spec_example_with_another_col:
  "reconcile ex_current ex_new [''id''] =
     Inr \<lparr>columns = [''id'', ''value_col'', ''another_col''],
          rows = [[Some (IntV 3), Some (StrV ''c''), Some (StrV ''x'')],
                  [Some (IntV 2), Some (StrV ''B''), Some (StrV ''x'')]]\<rparr>"
  by code_simp

text \<open>
  C7 (idempotence). The claim: a second run with the same New, against the dataset the
  first run wrote, classifies every row Unchanged. On clean inputs this is
  \<open>second_run_all_unchanged\<close>. The function breaks it on a row that the first run loses:
  with \<open>null_pair\<close> as Current and as New, the first run writes an empty dataset (the
  row of key 1 has NULL in \<^verbatim>\<open>value_col\<close> on both sides and is in no bucket), and the
  second run, against that empty dataset, puts the row of key 1 in the Inserted bucket.
\<close>

theorem second_run_reinserts_lost_row:
  "reconcile null_pair null_pair [''id''] = Inr (three_col []) \<and>
   bindE (join_fullouter null_pair (three_col []) [''id'']) (new_rows [''id'']) =
     Inr \<lparr>columns = [''id'', ''value_col'', ''another_col''],
          rows = [[Some (IntV 1), None, Some (StrV ''x'')]]\<rparr>"
  by code_simp

text \<open>
  C8 (NULL against NULL). The claim: a key of both inputs whose compared column is NULL on
  both sides, the other compared column being equal, is classified Unchanged and keeps
  Current's row. In the function the row passes neither the Updated nor the Unchanged
  filter: \<open>null_pair\<close> has the single row of id 1 with NULL in \<^verbatim>\<open>value_col\<close>, and with
  it as Current and as New the reconciled dataset is empty.
\<close>

theorem null_pair_row_lost:
  "reconcile null_pair null_pair [''id''] =
     Inr \<lparr>columns = [''id'', ''value_col'', ''another_col''], rows = []\<rparr>"
  by code_simp

text \<open>
  C9 (empty primary key). With an empty list of primary keys the function fails with the
  IndexError of the join, which the taxonomy names \<open>AmbiguousPrimaryKey\<close>, whatever the
  writer would do: the writer is not called, the destination and the output are as before,
  and the error is the function's result.
\<close>

theorem empty_primary_keys:
  "update_and_load_to_aurora save current_data new_data [] aurora_jdbc_url aurora_table_name
     aurora_properties w = (Inl IndexError, w) \<and>
   taxonomy IndexError = AmbiguousPrimaryKey"
  by (simp add: update_and_load_to_aurora_def reconcile_def join_fullouter_def bindE_def)

theorem empty_primary_keys_witness:
  "update_and_load_to_aurora (\<lambda>q d. (Inr (), payload q # d)) ex_current ex_new []
     ''jdbc:mysql://host/db'' ''t'' [(''user'', ''u''), (''password'', ''p''), (''driver'', ''d'')]
     \<lparr>destination = [], stdout = []\<rparr> =
   (Inl IndexError, \<lparr>destination = [], stdout = []\<rparr>) \<and>
   taxonomy IndexError = AmbiguousPrimaryKey"
  by (rule empty_primary_keys)

text \<open>
  C10 (NULL in a compared column). As stated, for every key of both inputs with a NULL in
  a compared column, the claim fails when the other compared column differs: with
  \<open>null_pair\<close> as Current and \<open>null_pair_other\<close> as New, \<^verbatim>\<open>value_col\<close> is NULL on both
  sides, \<^verbatim>\<open>another_col\<close> differs, the joined row passes the Updated filter and the
  reconciled dataset has New's row for key 1.
\<close>

theorem null_with_difference_is_updated:
  "cell_of (columns null_pair) [Some (IntV 1), None, Some (StrV ''x'')] ''value_col'' = None \<and>
   reconcile null_pair null_pair_other [''id''] = Inr null_pair_other \<and>
   rows_for [''id''] null_pair_other [Some (IntV 1)] = [[Some (IntV 1), None, Some (StrV ''y'')]]"
  by code_simp

text \<open>
  C10, as amended. If the run succeeds and both inputs have unique keys, then for a row
  \<open>l\<close> of New and a row \<open>r\<close> of Current with the same key \<open>k\<close> such that one of the four
  compared cells is NULL and neither compared column has two different non-NULL cells, the
  reconciled dataset has no row for \<open>k\<close>.
\<close>

theorem null_row_dropped:
  assumes "reconcile current_data new_data pks = Inr R"
    and "unique_keys pks new_data" "unique_keys pks current_data"
    and "l \<in> set (rows new_data)" "r \<in> set (rows current_data)"
    and "key_of pks new_data l = k" "key_of pks current_data r = k" "None \<notin> set k"
    and "cell_of (columns new_data) l ''value_col'' = None \<or>
         cell_of (columns current_data) r ''value_col'' = None \<or>
         cell_of (columns new_data) l ''another_col'' = None \<or>
         cell_of (columns current_data) r ''another_col'' = None"
    and "cell_of (columns new_data) l ''value_col'' = None \<or>
         cell_of (columns current_data) r ''value_col'' = None \<or>
         cell_of (columns new_data) l ''value_col'' = cell_of (columns current_data) r ''value_col''"
    and "cell_of (columns new_data) l ''another_col'' = None \<or>
         cell_of (columns current_data) r ''another_col'' = None \<or>
         cell_of (columns new_data) l ''another_col'' = cell_of (columns current_data) r ''another_col''"
  shows "rows_for pks R k = []"
proof -
  have "changed (the_join pks new_data current_data) (l, r) = None"
    unfolding changed_the_join by (rule or3_neq3_None [OF assms(9-11)])
  then show ?thesis
    using rows_for_both [OF assms(1-8)] by simp
qed

theorem null_row_dropped_witness:
  "reconcile half_null_current half_null_new [''id''] = Inr (three_col []) \<and>
   has_key [''id''] half_null_current [Some (IntV 1)] \<and>
   has_key [''id''] half_null_new [Some (IntV 1)] \<and>
   rows_for [''id''] (three_col []) [Some (IntV 1)] = []"
proof -
  let ?l = "[Some (IntV 1), None, Some (StrV ''x'')]"
  let ?r = "[Some (IntV 1), Some (StrV ''a''), Some (StrV ''x'')]"
  have h1: "reconcile half_null_current half_null_new [''id''] = Inr (three_col [])"
    by (rule half_null_run)
  have h2: "unique_keys [''id''] half_null_new" by code_simp
  have h3: "unique_keys [''id''] half_null_current" by code_simp
  have h4: "?l \<in> set (rows half_null_new)" by code_simp
  have h5: "?r \<in> set (rows half_null_current)" by code_simp
  have h6: "key_of [''id''] half_null_new ?l = [Some (IntV 1)]" by code_simp
  have h7: "key_of [''id''] half_null_current ?r = [Some (IntV 1)]" by code_simp
  have h8: "None \<notin> set [Some (IntV 1)]" by simp
  have h9: "cell_of (columns half_null_new) ?l ''value_col'' = None \<or>
         cell_of (columns half_null_current) ?r ''value_col'' = None \<or>
         cell_of (columns half_null_new) ?l ''another_col'' = None \<or>
         cell_of (columns half_null_current) ?r ''another_col'' = None" by code_simp
  have h10: "cell_of (columns half_null_new) ?l ''value_col'' = None \<or>
         cell_of (columns half_null_current) ?r ''value_col'' = None \<or>
         cell_of (columns half_null_new) ?l ''value_col'' =
         cell_of (columns half_null_current) ?r ''value_col''" by code_simp
  have h11: "cell_of (columns half_null_new) ?l ''another_col'' = None \<or>
         cell_of (columns half_null_current) ?r ''another_col'' = None \<or>
         cell_of (columns half_null_new) ?l ''another_col'' =
         cell_of (columns half_null_current) ?r ''another_col''" by code_simp
  have k1: "has_key [''id''] half_null_current [Some (IntV 1)]" by code_simp
  have k2: "has_key [''id''] half_null_new [Some (IntV 1)]" by code_simp
  from null_row_dropped [OF h1 h2 h3 h4 h5 h6 h7 h8 h9 h10 h11] h1 k1 k2 show ?thesis by blast
qed

end
